theory Spec2Isabelle
  imports Complex_Main "HOL-Library.Multiset" "HOL-Library.Sublist"
begin

section \<open>Route analyzer: data model\<close>

text \<open>
  Shallow embedding of \<^verbatim>\<open>backend/route_analyzer.py\<close>. Python numbers that arrive from
  JSON or from the graph library are modelled as exact reals; the one non-finite float the
  source creates itself, \<^verbatim>\<open>float("inf")\<close>, is a constructor of its own. Exceptions are
  values of the type \<open>error\<close>; a function that can raise returns \<open>error + 'a\<close>.
  The three external libraries (the graph library, the integer-program solver, the HTTP
  client) are parameters of the functions that call them.
\<close>

datatype error =
    IndexError          \<comment> \<open>list index out of range\<close>
  | KeyError            \<comment> \<open>dictionary key not present\<close>
  | RuntimeError        \<comment> \<open>raised by \<^verbatim>\<open>get_safe_route\<close> when the HTTP request fails\<close>
  | PulpSolverError     \<comment> \<open>raised by the solver call itself\<close>
  | GraphError          \<comment> \<open>raised by the graph library (download, nearest node)\<close>
  | ValueError          \<comment> \<open>\<^verbatim>\<open>max\<close> or \<^verbatim>\<open>min\<close> of an empty list\<close>

datatype pyfloat = Fin real | PosInf

type_synonym coordinate = "real \<times> real"  \<comment> \<open>(lon, lat)\<close>

type_synonym node = int

subsection \<open>Python list primitives\<close>

text \<open>\<^verbatim>\<open>range(n)\<close> and \<^verbatim>\<open>range(a, b)\<close> for integer bounds: empty when the bound is not above
  the start.\<close>

definition range_to :: "int \<Rightarrow> nat list" where
  "range_to n = [0..<nat n]"

definition range_from_to :: "nat \<Rightarrow> int \<Rightarrow> nat list" where
  "range_from_to a b = [a..<nat b]"

text \<open>\<^verbatim>\<open>xs[:k]\<close>: a negative bound counts from the end.\<close>

definition slice_to :: "'a list \<Rightarrow> int \<Rightarrow> 'a list" where
  "slice_to xs k = (if 0 \<le> k then take (nat k) xs else take (nat (int (length xs) + k)) xs)"

text \<open>\<^verbatim>\<open>xs[i]\<close> for an integer index: negative indices count from the end, anything else
  out of range raises \<^verbatim>\<open>IndexError\<close>.\<close>

definition index_at :: "'a list \<Rightarrow> int \<Rightarrow> error + 'a" where
  "index_at xs i =
     (if 0 \<le> i \<and> i < int (length xs) then Inr (xs ! nat i)
      else if i < 0 \<and> - int (length xs) \<le> i then Inr (xs ! nat (int (length xs) + i))
      else Inl IndexError)"

section \<open>Stop sequencer: \<^verbatim>\<open>get_top_stop_orders\<close>\<close>

text \<open>
  The keys of the dictionary \<^verbatim>\<open>x\<close> (lines 46-48): all ordered pairs of distinct stops.
\<close>

definition x_keys :: "int \<Rightarrow> (nat \<times> nat) list" where
  "x_keys n = concat (map (\<lambda>i. map (\<lambda>j. (i, j)) (filter (\<lambda>j. i \<noteq> j) (range_to n))) (range_to n))"

text \<open>
  The objective (line 51) reads \<^verbatim>\<open>dist_matrix[i + 1][j + 1]\<close> for every key; a row that is
  too short raises \<^verbatim>\<open>IndexError\<close>.
\<close>

fun objective :: "pyfloat list list \<Rightarrow> (nat \<times> nat) list \<Rightarrow> error + ((nat \<times> nat) \<times> pyfloat) list" where
  "objective dist_matrix [] = Inr []"
| "objective dist_matrix ((i, j) # ks) =
     (if i + 1 < length dist_matrix \<and> j + 1 < length (dist_matrix ! (i + 1))
      then (case objective dist_matrix ks of
              Inl e \<Rightarrow> Inl e
            | Inr cs \<Rightarrow> Inr (((i, j), dist_matrix ! (i + 1) ! (j + 1)) # cs))
      else Inl IndexError)"

text \<open>
  What the solver leaves behind after \<^verbatim>\<open>prob.solve\<close> (line 62): a status, and for each
  variable \<^verbatim>\<open>x[i, j]\<close> a value (\<open>None\<close> while the variable has none). The solver
  is a parameter: it receives the number of stops and the objective and either raises or
  returns. The constraints (lines 53-60) are a function of \<open>n\<close> alone.
\<close>

record solution =
  status :: int
  varValue :: "nat \<times> nat \<Rightarrow> real option"

type_synonym solver = "int \<Rightarrow> ((nat \<times> nat) \<times> pyfloat) list \<Rightarrow> error + solution"

text \<open>The dictionary \<^verbatim>\<open>x\<close> after solving, as a map from its keys to the variables' values.\<close>

definition x_dict :: "int \<Rightarrow> solution \<Rightarrow> (nat \<times> nat) \<rightharpoonup> real option" where
  "x_dict n sol = map_of (map (\<lambda>k. (k, varValue sol k)) (x_keys n))"

text \<open>
  The inner loop (lines 67-71): the first \<open>j\<close> with \<^verbatim>\<open>pulp.value(x[current, j]) == 1\<close>;
  the lookup \<^verbatim>\<open>x[current, j]\<close> raises \<^verbatim>\<open>KeyError\<close> on a pair that is not a key.
\<close>

fun next_stop :: "((nat \<times> nat) \<rightharpoonup> real option) \<Rightarrow> nat \<Rightarrow> nat list \<Rightarrow> error + nat option" where
  "next_stop x current [] = Inr None"
| "next_stop x current (j # js) =
     (case x (current, j) of
        None \<Rightarrow> Inl KeyError
      | Some v \<Rightarrow> if v = Some 1 then Inr (Some j) else next_stop x current js)"

text \<open>
  The outer loop (lines 66-71) over a list of rounds, threading \<^verbatim>\<open>order\<close> and
  \<^verbatim>\<open>current\<close>.
\<close>

fun follow_edges :: "((nat \<times> nat) \<rightharpoonup> real option) \<Rightarrow> int \<Rightarrow> nat list \<Rightarrow> int list \<times> nat
                      \<Rightarrow> error + (int list \<times> nat)" where
  "follow_edges x n [] st = Inr st"
| "follow_edges x n (r # rs) (order, current) =
     (case next_stop x current (range_to n) of
        Inl e \<Rightarrow> Inl e
      | Inr None \<Rightarrow> follow_edges x n rs (order, current)
      | Inr (Some j) \<Rightarrow> follow_edges x n rs (order @ [int j + 1], j))"

text \<open>
  \<^verbatim>\<open>alt[i], alt[i + 1] = alt[i + 1], alt[i]\<close> on a copy of \<^verbatim>\<open>order\<close> (lines 76-77).
\<close>

definition swap_adjacent :: "int list \<Rightarrow> nat \<Rightarrow> error + int list" where
  "swap_adjacent order i =
     (if i + 1 < length order
      then Inr (order[i := order ! (i + 1), i + 1 := order ! i])
      else Inl IndexError)"

fun alternates :: "int list \<Rightarrow> nat list \<Rightarrow> error + int list list" where
  "alternates order [] = Inr []"
| "alternates order (i # is) =
     (case swap_adjacent order i of
        Inl e \<Rightarrow> Inl e
      | Inr alt \<Rightarrow> (case alternates order is of
                     Inl e \<Rightarrow> Inl e
                   | Inr alts \<Rightarrow> Inr (alt # alts)))"

text \<open>
  Lines 73-79: the candidate list built from the reconstructed \<^verbatim>\<open>order\<close>.
\<close>

definition candidate_orders :: "int list \<Rightarrow> int \<Rightarrow> int \<Rightarrow> error + int list list" where
  "candidate_orders order n num_orders =
     (case alternates order (range_from_to 1 (min n 4)) of
        Inl e \<Rightarrow> Inl e
      | Inr alts \<Rightarrow> Inr (slice_to (order # alts) num_orders))"

definition get_top_stop_orders :: "solver \<Rightarrow> pyfloat list list \<Rightarrow> int \<Rightarrow> error + int list list" where
  "get_top_stop_orders solve dist_matrix num_orders =
     (let n = int (length dist_matrix) - 2 in
      case objective dist_matrix (x_keys n) of
        Inl e \<Rightarrow> Inl e
      | Inr obj \<Rightarrow>
     (case solve n obj of
        Inl e \<Rightarrow> Inl e
      | Inr sol \<Rightarrow>
     (case follow_edges (x_dict n sol) n (range_to n) ([0], 0) of
        Inl e \<Rightarrow> Inl e
      | Inr (order, current) \<Rightarrow>
          candidate_orders (order @ [int (length dist_matrix) - 1]) n num_orders)))"

section \<open>Cost matrix builder: \<^verbatim>\<open>get_osm_graph\<close> and \<^verbatim>\<open>compute_distance_matrix\<close>\<close>

text \<open>
  The graph library is used through two operations: \<^verbatim>\<open>ox.nearest_nodes(G, lon, lat)\<close>,
  which may raise, and \<^verbatim>\<open>nx.shortest_path_length(G, a, b, weight="length")\<close>, which
  returns a length or raises \<^verbatim>\<open>NetworkXNoPath\<close>.
\<close>

datatype path_result = PathLength real | NetworkXNoPath

record graph =
  nearest_nodes :: "real \<Rightarrow> real \<Rightarrow> error + node"
  shortest_path_length :: "node \<Rightarrow> node \<Rightarrow> path_result"

type_synonym bbox = "real \<times> real \<times> real \<times> real"  \<comment> \<open>(north, south, east, west)\<close>

text \<open>Lines 13-20; \<^verbatim>\<open>max\<close> of an empty list raises \<^verbatim>\<open>ValueError\<close>.\<close>

definition get_osm_graph :: "(bbox \<Rightarrow> error + graph) \<Rightarrow> coordinate list \<Rightarrow> error + graph" where
  "get_osm_graph graph_from_bbox points =
     (let lats = map snd points; lons = map fst points in
      if points = [] then Inl ValueError
      else graph_from_bbox
             (Max (set lats) + 1 / 10, Min (set lats) - 1 / 10,
              Max (set lons) + 1 / 10, Min (set lons) - 1 / 10))"

text \<open>Line 25: one nearest-node lookup per waypoint, in order; the first failure raises.\<close>

fun nearest_all :: "graph \<Rightarrow> coordinate list \<Rightarrow> error + node list" where
  "nearest_all G [] = Inr []"
| "nearest_all G ((lon, lat) # ps) =
     (case nearest_nodes G lon lat of
        Inl e \<Rightarrow> Inl e
      | Inr v \<Rightarrow> (case nearest_all G ps of Inl e \<Rightarrow> Inl e | Inr vs \<Rightarrow> Inr (v # vs)))"

text \<open>Lines 30-37: one entry of the matrix.\<close>

definition matrix_entry :: "graph \<Rightarrow> nat \<times> node \<Rightarrow> nat \<times> node \<Rightarrow> pyfloat" where
  "matrix_entry G p q =
     (case (p, q) of ((i, node_i), (j, node_j)) \<Rightarrow>
        if i = j then Fin 0
        else (case shortest_path_length G node_i node_j of
                PathLength d \<Rightarrow> Fin d
              | NetworkXNoPath \<Rightarrow> PosInf))"

definition compute_distance_matrix :: "graph \<Rightarrow> coordinate list \<Rightarrow> error + pyfloat list list" where
  "compute_distance_matrix G points =
     (case nearest_all G points of
        Inl e \<Rightarrow> Inl e
      | Inr nodes \<Rightarrow>
          Inr (map (\<lambda>p. map (matrix_entry G p) (enumerate 0 nodes)) (enumerate 0 nodes)))"

section \<open>Route evaluator: \<^verbatim>\<open>get_safe_route\<close>\<close>

text \<open>
  A maneuver of the service response is a dictionary; the source reads two of its keys
  with \<^verbatim>\<open>get\<close> and a default, so either may be absent. The remaining keys are kept as
  they are. The response is modelled at the types the routing service documents: a turn
  degree, a length and a time are numbers, an alert and a shape are strings.
\<close>

record maneuver =
  turn_degree :: "real option"
  verbal_turn_alert :: "string option"
  other_keys :: "(string \<times> string) list"

record leg_summary =
  summary_length :: real
  summary_time :: real

record leg =
  shape :: string
  summary :: leg_summary
  leg_maneuvers :: "maneuver list"

text \<open>
  The HTTP call (lines 103-107): either \<^verbatim>\<open>requests.post\<close> or
  \<^verbatim>\<open>raise_for_status\<close> raises a \<^verbatim>\<open>RequestException\<close>, or the response carries the
  list \<^verbatim>\<open>data["trip"]["legs"]\<close>.
\<close>

datatype http_result = RequestException | Response "leg list"

record route =
  polyline :: string
  distance :: real
  time :: real
  risk_score :: real
  maneuvers :: "maneuver list"

text \<open>\<^verbatim>\<open>d.get(key, default)\<close>, the key's value given as an option.\<close>

definition dict_get :: "'a option \<Rightarrow> 'a \<Rightarrow> 'a" where
  "dict_get v dflt = (case v of None \<Rightarrow> dflt | Some a \<Rightarrow> a)"

text \<open>\<^verbatim>\<open>sub in s\<close> on strings: \<open>sub\<close> occurs in \<open>s\<close> at some position.\<close>

fun starts_with :: "string \<Rightarrow> string \<Rightarrow> bool" where
  "starts_with [] s = True"
| "starts_with (c # cs) [] = False"
| "starts_with (c # cs) (d # ds) = (c = d \<and> starts_with cs ds)"

fun str_contains :: "string \<Rightarrow> string \<Rightarrow> bool" where
  "str_contains sub [] = (sub = [])"
| "str_contains sub (c # cs) = (starts_with sub (c # cs) \<or> str_contains sub cs)"

text \<open>The condition of line 114 and the count of lines 111-115.\<close>

definition is_left_turn :: "maneuver \<Rightarrow> bool" where
  "is_left_turn m =
     (dict_get (turn_degree m) 0 > 90 \<and> str_contains ''left'' (dict_get (verbal_turn_alert m) []))"

definition left_turns :: "maneuver list \<Rightarrow> nat" where
  "left_turns ms = sum_list (map (\<lambda>m. 1) (filter is_left_turn ms))"

text \<open>Lines 84-86: \<^verbatim>\<open>points[i]\<close> for each index of the order.\<close>

fun locations_of :: "coordinate list \<Rightarrow> int list \<Rightarrow> error + coordinate list" where
  "locations_of points [] = Inr []"
| "locations_of points (i # is) =
     (case index_at points i of
        Inl e \<Rightarrow> Inl e
      | Inr p \<Rightarrow> (case locations_of points is of Inl e \<Rightarrow> Inl e | Inr ps \<Rightarrow> Inr (p # ps)))"

definition get_safe_route :: "(coordinate list \<Rightarrow> http_result) \<Rightarrow> int list \<Rightarrow> coordinate list
                               \<Rightarrow> error + route" where
  "get_safe_route post order points =
     (case locations_of points order of
        Inl e \<Rightarrow> Inl e
      | Inr locations \<Rightarrow>
     (case post locations of
        RequestException \<Rightarrow> Inl RuntimeError
      | Response legs \<Rightarrow>
     (case index_at legs 0 of
        Inl e \<Rightarrow> Inl e
      | Inr leg \<Rightarrow>
          Inr \<lparr> polyline = shape leg,
                distance = summary_length (summary leg),
                time = summary_time (summary leg) / 60,
                risk_score = summary_length (summary leg) + real (left_turns (leg_maneuvers leg) * 5),
                maneuvers = leg_maneuvers leg \<rparr>)))"

section \<open>Route selector: \<^verbatim>\<open>analyze_routes\<close>\<close>

text \<open>
  The loop of lines 131-137: a \<^verbatim>\<open>RuntimeError\<close> skips the candidate, any other exception
  leaves the function.
\<close>

fun evaluate_orders :: "(int list \<Rightarrow> error + route) \<Rightarrow> int list list \<Rightarrow> error + route list" where
  "evaluate_orders ev [] = Inr []"
| "evaluate_orders ev (order # orders) =
     (case ev order of
        Inl e \<Rightarrow> if e = RuntimeError then evaluate_orders ev orders else Inl e
      | Inr r \<Rightarrow> (case evaluate_orders ev orders of
                   Inl e \<Rightarrow> Inl e
                 | Inr routes \<Rightarrow> Inr (r # routes)))"

text \<open>Lines 138-139: the stable sort by risk score and the slice \<^verbatim>\<open>routes[:3]\<close>.\<close>

definition rank_routes :: "route list \<Rightarrow> route list" where
  "rank_routes routes = slice_to (sort_key risk_score routes) 3"

text \<open>Lines 131-139 together.\<close>

definition select_routes :: "(int list \<Rightarrow> error + route) \<Rightarrow> int list list \<Rightarrow> error + route list" where
  "select_routes ev orders =
     (case evaluate_orders ev orders of Inl e \<Rightarrow> Inl e | Inr routes \<Rightarrow> Inr (rank_routes routes))"

definition analyze_routes :: "(bbox \<Rightarrow> error + graph) \<Rightarrow> solver \<Rightarrow> (coordinate list \<Rightarrow> http_result)
                               \<Rightarrow> coordinate \<Rightarrow> coordinate \<Rightarrow> coordinate list \<Rightarrow> error + route list" where
  "analyze_routes graph_from_bbox solve post origin destination stops =
     (let points = [origin] @ stops @ [destination] in
      case get_osm_graph graph_from_bbox points of
        Inl e \<Rightarrow> Inl e
      | Inr G \<Rightarrow>
     (case compute_distance_matrix G points of
        Inl e \<Rightarrow> Inl e
      | Inr dist_matrix \<Rightarrow>
     (case get_top_stop_orders solve dist_matrix 5 of
        Inl e \<Rightarrow> Inl e
      | Inr orders \<Rightarrow> select_routes (\<lambda>order. get_safe_route post order points) orders)))"

section \<open>Predicates of the statements\<close>

text \<open>
  A stop order over \<open>N\<close> waypoints: \<open>N\<close> entries, the first is index 0, the last is index
  \<open>N - 1\<close>, and every index of \<open>[1, N - 2]\<close> occurs exactly once.
\<close>

definition stop_order :: "nat \<Rightarrow> int list \<Rightarrow> bool" where
  "stop_order N order \<longleftrightarrow>
     length order = N \<and> hd order = 0 \<and> last order = int N - 1
     \<and> (\<forall>i\<in>{1..int N - 2}. count_list order i = 1)"

text \<open>
  The predicate of the cost matrix's entries: a finite entry is not negative; the infinite
  entry counts as non-negative.
\<close>

definition non_negative :: "pyfloat \<Rightarrow> bool" where
  "non_negative c = (case c of Fin r \<Rightarrow> 0 \<le> r | PosInf \<Rightarrow> True)"


section \<open>Concrete inputs\<close>

text \<open>
  A solver outcome with status \<open>-1\<close> (infeasible) in which no variable has a value, and
  cost matrices for two, three and four waypoints.
\<close>

definition no_solution :: solution where
  "no_solution = \<lparr> status = - 1, varValue = (\<lambda>k. None) \<rparr>"

definition cbc_infeasible :: solver where
  "cbc_infeasible n obj = Inr no_solution"


definition three_point_matrix :: "pyfloat list list" where
  "three_point_matrix = [[Fin 0, Fin 3, Fin 7], [Fin 3, Fin 0, Fin 4], [Fin 7, Fin 4, Fin 0]]"

definition four_point_matrix :: "pyfloat list list" where
  "four_point_matrix =
     [[Fin 0, Fin 3, Fin 7, Fin 9], [Fin 3, Fin 0, Fin 4, Fin 6],
      [Fin 7, Fin 4, Fin 0, Fin 2], [Fin 9, Fin 6, Fin 2, Fin 0]]"


text \<open>
  A one-way street: node \<open>b\<close> is reached from node \<open>a\<close> exactly when \<open>a \<le> b\<close>;
  a waypoint maps to the node at the integer part of its longitude.
\<close>

definition one_way_street :: graph where
  "one_way_street =
     \<lparr> nearest_nodes = (\<lambda>lon lat. Inr \<lfloor>lon\<rfloor>),
       shortest_path_length = (\<lambda>a b. if a \<le> b then PathLength (of_int (b - a)) else NetworkXNoPath) \<rparr>"

definition street_points :: "coordinate list" where
  "street_points = [(0, 0), (1, 0), (3, 0)]"

text \<open>Maneuvers and legs of a routing-service response, and a service that answers every
  request with one given leg.\<close>

definition sharp_left :: maneuver where
  "sharp_left = \<lparr> turn_degree = Some 120, verbal_turn_alert = Some ''Turn left onto Main Street.'',
                   other_keys = [(''type'', ''15'')] \<rparr>"

definition sharp_right :: maneuver where
  "sharp_right = \<lparr> turn_degree = Some 120, verbal_turn_alert = Some ''Turn right onto Oak Avenue.'',
                    other_keys = [(''type'', ''10'')] \<rparr>"

definition slight_left :: maneuver where
  "slight_left = \<lparr> turn_degree = Some 90, verbal_turn_alert = Some ''Bear left.'', other_keys = [] \<rparr>"

definition no_alert :: maneuver where
  "no_alert = \<lparr> turn_degree = Some 135, verbal_turn_alert = None, other_keys = [] \<rparr>"

definition no_degree :: maneuver where
  "no_degree = \<lparr> turn_degree = None, verbal_turn_alert = Some ''Turn left.'', other_keys = [] \<rparr>"

definition toy_leg :: "real \<Rightarrow> maneuver list \<Rightarrow> leg" where
  "toy_leg d ms = \<lparr> shape = ''_p~iF~ps|U'', summary = \<lparr> summary_length = d, summary_time = 90 \<rparr>,
                    leg_maneuvers = ms \<rparr>"

definition two_points :: "coordinate list" where
  "two_points = [(0, 0), (1, 0)]"

definition valhalla_reply :: "leg \<Rightarrow> coordinate list \<Rightarrow> http_result" where
  "valhalla_reply l locations = Response [l]"

text \<open>
  A graph provider that returns the one-way street, a routing service that is down, and
  one whose answer depends on the order of the stops: it fails when the first stop is at
  longitude 3, and reports length 10 when the first stop is at longitude 2, else 12.
\<close>

definition osm_street :: "bbox \<Rightarrow> error + graph" where
  "osm_street box = Inr one_way_street"







text \<open>A routing service whose response carries no leg.\<close>

definition valhalla_no_leg :: "coordinate list \<Rightarrow> http_result" where
  "valhalla_no_leg locations = Response []"

section \<open>Properties of the stop sequencer\<close>

subsection \<open>The path reconstruction looks up a pair that is not a key\<close>

lemma x_keys_diag: "(i, i) \<notin> set (x_keys n)"
  by (auto simp: x_keys_def)

lemma x_dict_diag: "x_dict n sol (i, i) = None"
  by (simp add: x_dict_def map_of_eq_None_iff image_image x_keys_diag)

lemma range_to_pos: "0 < n \<Longrightarrow> range_to n = 0 # [1..<nat n]"
  by (simp add: range_to_def upt_conv_Cons)

lemma range_to_nonpos: "n \<le> 0 \<Longrightarrow> range_to n = []"
  by (simp add: range_to_def)

lemma x_keys_nonpos: "n \<le> 0 \<Longrightarrow> x_keys n = []"
  by (simp add: x_keys_def range_to_nonpos)

text \<open>
  With at least one stop the first lookup of the first round is \<^verbatim>\<open>x[0, 0]\<close>:
  \<open>current\<close> is 0 and \<open>j\<close> starts at 0.
\<close>

lemma next_stop_KeyError: "0 < n \<Longrightarrow> next_stop (x_dict n sol) 0 (range_to n) = Inl KeyError"
  by (simp add: range_to_pos x_dict_diag)

lemma follow_edges_KeyError:
  "0 < n \<Longrightarrow> follow_edges (x_dict n sol) n (range_to n) (order, 0) = Inl KeyError"
proof -
  assume pos: "0 < n"
  then obtain rs where rounds: "range_to n = 0 # rs"
    by (simp add: range_to_pos)
  have "follow_edges (x_dict n sol) n (0 # rs) (order, 0) = Inl KeyError"
    by (simp add: next_stop_KeyError [OF pos])
  then show ?thesis
    by (simp only: rounds)
qed

lemma get_top_stop_orders_raises:
  assumes "3 \<le> length dist_matrix"
  shows "\<exists>e. get_top_stop_orders solve dist_matrix num_orders = Inl e"
  using assms
  by (auto simp: get_top_stop_orders_def Let_def follow_edges_KeyError split: sum.splits)

lemma get_top_stop_orders_KeyError:
  assumes "3 \<le> length dist_matrix"
    and "objective dist_matrix (x_keys (int (length dist_matrix) - 2)) = Inr obj"
    and "solve (int (length dist_matrix) - 2) obj = Inr sol"
  shows "get_top_stop_orders solve dist_matrix num_orders = Inl KeyError"
  using assms
  by (auto simp: get_top_stop_orders_def Let_def follow_edges_KeyError split: sum.splits)

subsection \<open>Two waypoints\<close>

lemma candidate_orders_no_swap:
  "n \<le> 1 \<Longrightarrow> candidate_orders order n num_orders = Inr (slice_to [order] num_orders)"
  by (simp add: candidate_orders_def range_from_to_def)

lemma get_top_stop_orders_two:
  assumes "length dist_matrix = 2"
  shows "get_top_stop_orders solve dist_matrix num_orders =
           (case solve 0 [] of Inl e \<Rightarrow> Inl e | Inr sol \<Rightarrow> Inr (slice_to [[0, 1]] num_orders))"
  using assms
  by (simp add: get_top_stop_orders_def x_keys_nonpos range_to_nonpos candidate_orders_no_swap
           split: sum.splits)

lemma set_slice_to: "set (slice_to xs k) \<subseteq> set xs"
  by (auto simp: slice_to_def dest: in_set_takeD)

text \<open>
  C1. The stop orders of the specification are not delivered: for a cost matrix of three or
  more waypoints \<^verbatim>\<open>get_top_stop_orders\<close> returns no stop order at all. Whatever the
  solver does the call ends in an exception, and when the objective is built and the
  solver returns, it is the \<^verbatim>\<open>KeyError\<close> of the lookup \<^verbatim>\<open>x[0, 0]\<close> in the path
  reconstruction. A stop order is returned for two waypoints only, and it is \<open>[0, 1]\<close>.
\<close>

theorem no_stop_order_with_stops:
  "(3 \<le> length dist_matrix
      \<longrightarrow> (\<exists>e. get_top_stop_orders solve dist_matrix num_orders = Inl e))
   \<and> (3 \<le> length dist_matrix
        \<and> objective dist_matrix (x_keys (int (length dist_matrix) - 2)) = Inr obj
        \<and> solve (int (length dist_matrix) - 2) obj = Inr sol
      \<longrightarrow> get_top_stop_orders solve dist_matrix num_orders = Inl KeyError)
   \<and> (2 \<le> length dist_matrix
        \<and> get_top_stop_orders solve dist_matrix num_orders = Inr orders \<and> order \<in> set orders
      \<longrightarrow> length dist_matrix = 2 \<and> order = [0, 1])"
proof (intro conjI impI)
  assume "3 \<le> length dist_matrix"
  then show "\<exists>e. get_top_stop_orders solve dist_matrix num_orders = Inl e"
    by (rule get_top_stop_orders_raises)
next
  assume "3 \<le> length dist_matrix
        \<and> objective dist_matrix (x_keys (int (length dist_matrix) - 2)) = Inr obj
        \<and> solve (int (length dist_matrix) - 2) obj = Inr sol"
  then show "get_top_stop_orders solve dist_matrix num_orders = Inl KeyError"
    using get_top_stop_orders_KeyError by blast
next
  assume a: "2 \<le> length dist_matrix
        \<and> get_top_stop_orders solve dist_matrix num_orders = Inr orders \<and> order \<in> set orders"
  then have "\<not> 3 \<le> length dist_matrix"
    using get_top_stop_orders_raises [of dist_matrix solve num_orders] by auto
  with a show two: "length dist_matrix = 2"
    by simp
  with a have "orders = slice_to [[0, 1]] num_orders"
    by (simp add: get_top_stop_orders_two split: sum.splits)
  with a set_slice_to [of "[[0, 1]]" num_orders] show "order = [0, 1]"
    by auto
qed

lemma four_point_objective:
  "objective four_point_matrix (x_keys (int (length four_point_matrix) - 2))
     = Inr [((0, 1), Fin 4), ((1, 0), Fin 4)]"
  by (simp add: four_point_matrix_def x_keys_def range_to_def upt_conv_Cons)

theorem no_stop_order_with_stops_witness:
  "3 \<le> length four_point_matrix
   \<and> objective four_point_matrix (x_keys (int (length four_point_matrix) - 2))
       = Inr [((0, 1), Fin 4), ((1, 0), Fin 4)]
   \<and> cbc_infeasible (int (length four_point_matrix) - 2) [((0, 1), Fin 4), ((1, 0), Fin 4)]
       = Inr no_solution
   \<and> get_top_stop_orders cbc_infeasible four_point_matrix 5 = Inl KeyError"
proof -
  have len: "3 \<le> length four_point_matrix"
    by (simp add: four_point_matrix_def)
  have sol: "cbc_infeasible (int (length four_point_matrix) - 2) [((0, 1), Fin 4), ((1, 0), Fin 4)]
       = Inr no_solution"
    by (simp add: cbc_infeasible_def)
  from no_stop_order_with_stops [of four_point_matrix cbc_infeasible 5
      "[((0, 1), Fin 4), ((1, 0), Fin 4)]" no_solution]
    len four_point_objective sol
  have "get_top_stop_orders cbc_infeasible four_point_matrix 5 = Inl KeyError"
    by blast
  with len four_point_objective sol show ?thesis
    by blast
qed

text \<open>
  C3. With one intermediate stop (three waypoints) \<^verbatim>\<open>get_top_stop_orders\<close> does not
  return the ordering \<open>[0, 1, 2]\<close>: the dictionary \<^verbatim>\<open>x\<close> is empty, and the first
  lookup \<^verbatim>\<open>x[0, 0]\<close> of the path reconstruction raises \<^verbatim>\<open>KeyError\<close>.
\<close>

theorem one_stop_raises_KeyError:
  "get_top_stop_orders cbc_infeasible three_point_matrix 5 = Inl KeyError"
proof -
  have len: "int (length three_point_matrix) - 2 = 1"
    by (simp add: three_point_matrix_def)
  have keys: "x_keys 1 = []"
    by (simp add: x_keys_def range_to_def)
  have "follow_edges (x_dict 1 no_solution) 1 (range_to 1) ([0], 0) = Inl KeyError"
    by (rule follow_edges_KeyError) simp
  then show ?thesis
    by (simp add: get_top_stop_orders_def len keys cbc_infeasible_def)
qed

subsection \<open>The candidate list (lines 73-79)\<close>








subsection \<open>The shape of the candidates\<close>

text \<open>
  The candidate-building step keeps the shape of a stop order: when the ordering it starts
  from is a stop order, so is every candidate built from it.
\<close>

lemma alternates_Inr:
  "alternates order is = Inr alts \<Longrightarrow>
   alts = map (\<lambda>i. order[i := order ! (i + 1), i + 1 := order ! i]) is
   \<and> (\<forall>i\<in>set is. i + 1 < length order)"
  by (induction "is" arbitrary: alts) (auto simp: swap_adjacent_def split: sum.splits if_splits)

lemma count_list_swap:
  assumes "i + 1 < length order"
  shows "count_list (order[i := order ! (i + 1), i + 1 := order ! i]) x = count_list order x"
proof -
  have "mset (order[i := order ! (i + 1), i + 1 := order ! i]) = mset order"
    using assms mset_swap [of "i + 1" order i] by simp
  then show ?thesis
    by (metis count_mset)
qed

lemma swap_stop_order:
  assumes valid: "stop_order N order" and i: "1 \<le> i" "i + 2 < N"
  shows "stop_order N (order[i := order ! (i + 1), i + 1 := order ! i])"
proof -
  let ?alt = "order[i := order ! (i + 1), i + 1 := order ! i]"
  from valid have len: "length order = N"
    by (simp add: stop_order_def)
  with i have ne: "order \<noteq> []" "?alt \<noteq> []"
    by auto
  have "hd ?alt = ?alt ! 0"
    using ne by (simp add: hd_conv_nth)
  also have "\<dots> = order ! 0"
    using i by simp
  also have "\<dots> = hd order"
    using ne by (simp add: hd_conv_nth)
  finally have hd: "hd ?alt = hd order" .
  have "last ?alt = ?alt ! (N - 1)"
    using ne len by (simp add: last_conv_nth)
  also have "\<dots> = order ! (N - 1)"
    using i by simp
  also have "\<dots> = last order"
    using ne len by (simp add: last_conv_nth)
  finally have last: "last ?alt = last order" .
  have count: "count_list ?alt x = count_list order x" for x
    using i len by (intro count_list_swap) simp
  from valid have v: "hd order = 0" "last order = int N - 1"
    "\<forall>x\<in>{1..int N - 2}. count_list order x = 1"
    by (simp_all add: stop_order_def)
  have "length ?alt = N"
    using len by simp
  moreover have "hd ?alt = 0"
    using hd v(1) by (simp only:)
  moreover have "last ?alt = int N - 1"
    using last v(2) by (simp only:)
  moreover have "\<forall>x\<in>{1..int N - 2}. count_list ?alt x = 1"
    using v(3) by (simp only: count)
  ultimately show ?thesis
    unfolding stop_order_def by blast
qed

lemma candidates_stop_orders:
  assumes n: "0 \<le> n" and valid: "stop_order (nat n + 2) best"
    and cands: "candidate_orders best n num_orders = Inr cands" and mem: "cand \<in> set cands"
  shows "stop_order (nat n + 2) cand"
proof -
  define sw where "sw = (\<lambda>i. best[i := best ! (i + 1), i + 1 := best ! i])"
  from cands obtain alts where alts: "alternates best (range_from_to 1 (min n 4)) = Inr alts"
    and all: "cands = slice_to (best # alts) num_orders"
    by (auto simp: candidate_orders_def split: sum.splits)
  from alternates_Inr [OF alts] have "alts = map sw (range_from_to 1 (min n 4))"
    by (simp add: sw_def)
  with all mem set_slice_to [of "best # alts" num_orders]
  have "cand = best \<or> (\<exists>i\<in>set (range_from_to 1 (min n 4)). cand = sw i)"
    by auto
  then show ?thesis
  proof
    assume "cand = best"
    with valid show ?thesis by simp
  next
    assume "\<exists>i\<in>set (range_from_to 1 (min n 4)). cand = sw i"
    then obtain i where i: "1 \<le> i" "i < nat (min n 4)" and cand: "cand = sw i"
      by (auto simp: range_from_to_def)
    from i n have "i + 2 < nat n + 2"
      by auto
    from swap_stop_order [OF valid i(1) this] cand show ?thesis
      by (simp add: sw_def)
  qed
qed

subsection \<open>The solver's status\<close>





section \<open>Properties of the cost matrix builder\<close>

lemma nearest_all_mapped:
  "\<forall>p\<in>set points. \<exists>v. nearest_nodes G (fst p) (snd p) = Inr v \<Longrightarrow>
   \<exists>nodes. nearest_all G points = Inr nodes \<and> length nodes = length points"
proof (induction points)
  case Nil
  then show ?case by simp
next
  case (Cons p ps)
  obtain lon lat where p: "p = (lon, lat)"
    by (cases p)
  from Cons.prems obtain v where v: "nearest_nodes G lon lat = Inr v"
    by (auto simp: p)
  from Cons obtain vs where vs: "nearest_all G ps = Inr vs" "length vs = length ps"
    by auto
  show ?case
    by (simp add: p v vs)
qed

lemma matrix_entry_at:
  assumes "i < length nodes" "j < length nodes"
  shows "map (\<lambda>p. map (matrix_entry G p) (enumerate 0 nodes)) (enumerate 0 nodes) ! i ! j
         = matrix_entry G (i, nodes ! i) (j, nodes ! j)"
  using assms by (simp add: nth_enumerate_eq)

text \<open>
  C7. For a waypoint list of size \<open>N\<close> whose waypoints all map to graph nodes,
  \<^verbatim>\<open>compute_distance_matrix\<close> returns an \<open>N \<times> N\<close> matrix whose diagonal entries are
  exactly 0 and whose other entries are non-negative, the lengths that the graph library
  reports being non-negative (road lengths); for a pair without a connecting path the
  entry is the infinite sentinel, and the build does not fail.
\<close>

theorem distance_matrix_shape:
  assumes mapped: "\<forall>p\<in>set points. \<exists>v. nearest_nodes G (fst p) (snd p) = Inr v"
    and lengths: "\<forall>a b d. shortest_path_length G a b = PathLength d \<longrightarrow> 0 \<le> d"
  shows "\<exists>m nodes. nearest_all G points = Inr nodes
           \<and> compute_distance_matrix G points = Inr m
           \<and> length m = length points
           \<and> (\<forall>i<length points. length (m ! i) = length points \<and> m ! i ! i = Fin 0
                \<and> (\<forall>j<length points. non_negative (m ! i ! j)
                      \<and> (i \<noteq> j \<and> shortest_path_length G (nodes ! i) (nodes ! j) = NetworkXNoPath
                           \<longrightarrow> m ! i ! j = PosInf)))"
proof -
  from nearest_all_mapped [OF mapped] obtain nodes
    where nodes: "nearest_all G points = Inr nodes" "length nodes = length points"
    by blast
  define m where "m = map (\<lambda>p. map (matrix_entry G p) (enumerate 0 nodes)) (enumerate 0 nodes)"
  have res: "compute_distance_matrix G points = Inr m"
    by (simp add: compute_distance_matrix_def nodes m_def)
  have len: "length m = length points"
    by (simp add: m_def nodes)
  have rows: "\<forall>i<length points. length (m ! i) = length points \<and> m ! i ! i = Fin 0
                \<and> (\<forall>j<length points. non_negative (m ! i ! j)
                      \<and> (i \<noteq> j \<and> shortest_path_length G (nodes ! i) (nodes ! j) = NetworkXNoPath
                           \<longrightarrow> m ! i ! j = PosInf))"
  proof (intro allI impI conjI)
    fix i assume i: "i < length points"
    then show "length (m ! i) = length points"
      by (simp add: m_def nodes)
    have entry: "m ! i ! j = matrix_entry G (i, nodes ! i) (j, nodes ! j)" if "j < length points" for j
      unfolding m_def using i that by (simp only: matrix_entry_at nodes)
    from i show "m ! i ! i = Fin 0"
      by (simp add: entry matrix_entry_def)
    fix j assume j: "j < length points"
    show "non_negative (m ! i ! j)"
      using lengths
      by (auto simp: entry [OF j] matrix_entry_def non_negative_def split: path_result.splits)
    assume "i \<noteq> j \<and> shortest_path_length G (nodes ! i) (nodes ! j) = NetworkXNoPath"
    then show "m ! i ! j = PosInf"
      by (simp add: entry [OF j] matrix_entry_def)
  qed
  from nodes(1) res len rows show ?thesis
    by blast
qed

lemma street_matrix:
  "compute_distance_matrix one_way_street street_points
     = Inr [[Fin 0, Fin 1, Fin 3], [PosInf, Fin 0, Fin 2], [PosInf, PosInf, Fin 0]]"
  by (simp add: compute_distance_matrix_def one_way_street_def street_points_def matrix_entry_def
        enumerate_eq_zip upt_conv_Cons)

theorem distance_matrix_shape_witness:
  "list_all (\<lambda>p. \<exists>v. nearest_nodes one_way_street (fst p) (snd p) = Inr v) street_points
   \<and> (\<forall>a b d. \<not> (shortest_path_length one_way_street a b = PathLength d \<and> d < 0))
   \<and> compute_distance_matrix one_way_street street_points
       = Inr [[Fin 0, Fin 1, Fin 3], [PosInf, Fin 0, Fin 2], [PosInf, PosInf, Fin 0]]
   \<and> shortest_path_length one_way_street 1 0 = NetworkXNoPath"
proof -
  have mapped: "\<forall>p\<in>set street_points. \<exists>v. nearest_nodes one_way_street (fst p) (snd p) = Inr v"
    by (simp add: one_way_street_def)
  have lengths: "\<forall>a b d. shortest_path_length one_way_street a b = PathLength d \<longrightarrow> 0 \<le> d"
    by (auto simp: one_way_street_def split: if_splits)
  have negs: "\<forall>a b d. \<not> (shortest_path_length one_way_street a b = PathLength d \<and> d < 0)"
    using lengths by (auto simp: not_less)
  have nopath: "shortest_path_length one_way_street 1 0 = NetworkXNoPath"
    by (simp add: one_way_street_def)
  from distance_matrix_shape [OF mapped lengths] mapped negs nopath show ?thesis
    by (simp add: street_matrix list_all_iff)
qed

section \<open>Properties of the route evaluator\<close>

lemma starts_with_iff: "starts_with sub s \<longleftrightarrow> (\<exists>q. s = sub @ q)"
  by (induction sub s rule: starts_with.induct) auto

lemma str_contains_iff: "str_contains sub s \<longleftrightarrow> (\<exists>p q. s = p @ sub @ q)"
proof (induction s)
  case Nil
  then show ?case by auto
next
  case (Cons c cs)
  have "(\<exists>p q. c # cs = p @ sub @ q) \<longleftrightarrow> (\<exists>q. c # cs = sub @ q) \<or> (\<exists>p q. cs = p @ sub @ q)"
  proof
    assume "\<exists>p q. c # cs = p @ sub @ q"
    then obtain p q where pq: "c # cs = p @ sub @ q"
      by blast
    show "(\<exists>q. c # cs = sub @ q) \<or> (\<exists>p q. cs = p @ sub @ q)"
    proof (cases p)
      case Nil
      with pq show ?thesis by auto
    next
      case (Cons a p')
      with pq have "cs = p' @ sub @ q" by simp
      then show ?thesis by blast
    qed
  next
    assume "(\<exists>q. c # cs = sub @ q) \<or> (\<exists>p q. cs = p @ sub @ q)"
    then show "\<exists>p q. c # cs = p @ sub @ q"
    proof
      assume "\<exists>q. c # cs = sub @ q"
      then obtain q where "c # cs = [] @ sub @ q" by auto
      then show ?thesis by blast
    next
      assume "\<exists>p q. cs = p @ sub @ q"
      then obtain p q where "c # cs = (c # p) @ sub @ q" by auto
      then show ?thesis by blast
    qed
  qed
  with Cons show ?case
    by (simp add: starts_with_iff)
qed

lemma left_turns_count: "left_turns ms = length (filter is_left_turn ms)"
  by (induction ms) (simp_all add: left_turns_def)

lemma get_safe_route_Inr:
  "get_safe_route post order points = Inr r \<longleftrightarrow>
     (\<exists>locs l ls. locations_of points order = Inr locs \<and> post locs = Response (l # ls)
        \<and> r = \<lparr> polyline = shape l, distance = summary_length (summary l),
                 time = summary_time (summary l) / 60,
                 risk_score = summary_length (summary l) + real (left_turns (leg_maneuvers l) * 5),
                 maneuvers = leg_maneuvers l \<rparr>)"
  by (cases "locations_of points order"; cases "post (projr (locations_of points order))")
     (auto simp: get_safe_route_def index_at_def neq_Nil_conv split: sum.splits http_result.splits)

lemma risk_of_route:
  "get_safe_route post order points = Inr r \<Longrightarrow>
   risk_score r = distance r + 5 * real (length (filter is_left_turn (maneuvers r)))"
  by (auto simp: get_safe_route_Inr left_turns_count)

text \<open>
  C4. The risk score of a route returned by \<^verbatim>\<open>get_safe_route\<close> is its distance plus 5
  times the number of its maneuvers that satisfy the left-turn condition. With the same
  maneuvers it is monotone in the distance; with the same distance, one more maneuver
  that satisfies the condition adds exactly 5, and one that does not adds nothing.
\<close>

theorem risk_score_formula:
  "(get_safe_route post order points = Inr r
      \<longrightarrow> risk_score r = distance r + 5 * real (length (filter is_left_turn (maneuvers r))))
   \<and> (get_safe_route post1 order1 points1 = Inr r1 \<and> get_safe_route post2 order2 points2 = Inr r2
        \<and> maneuvers r1 = maneuvers r2 \<and> distance r1 \<le> distance r2
      \<longrightarrow> risk_score r1 \<le> risk_score r2)
   \<and> (get_safe_route post1 order1 points1 = Inr r1 \<and> get_safe_route post2 order2 points2 = Inr r2
        \<and> distance r1 = distance r2 \<and> maneuvers r1 = ms @ ms' \<and> maneuvers r2 = ms @ m # ms'
      \<longrightarrow> risk_score r2 = risk_score r1 + (if is_left_turn m then 5 else 0))"
proof (intro conjI impI)
  assume "get_safe_route post order points = Inr r"
  then show "risk_score r = distance r + 5 * real (length (filter is_left_turn (maneuvers r)))"
    by (rule risk_of_route)
next
  assume "get_safe_route post1 order1 points1 = Inr r1 \<and> get_safe_route post2 order2 points2 = Inr r2
        \<and> maneuvers r1 = maneuvers r2 \<and> distance r1 \<le> distance r2"
  then show "risk_score r1 \<le> risk_score r2"
    using risk_of_route [of post1 order1 points1 r1] risk_of_route [of post2 order2 points2 r2]
    by simp
next
  assume "get_safe_route post1 order1 points1 = Inr r1 \<and> get_safe_route post2 order2 points2 = Inr r2
        \<and> distance r1 = distance r2 \<and> maneuvers r1 = ms @ ms' \<and> maneuvers r2 = ms @ m # ms'"
  then show "risk_score r2 = risk_score r1 + (if is_left_turn m then 5 else 0)"
    using risk_of_route [of post1 order1 points1 r1] risk_of_route [of post2 order2 points2 r2]
    by simp
qed
lemma toy_route:
  "get_safe_route (valhalla_reply (toy_leg d ms)) [0, 1] two_points
     = Inr \<lparr> polyline = ''_p~iF~ps|U'', distance = d, time = 3 / 2,
             risk_score = d + real (left_turns ms * 5), maneuvers = ms \<rparr>"
  by (simp add: get_safe_route_def two_points_def index_at_def valhalla_reply_def toy_leg_def)

lemma sharp_left_counts: "is_left_turn sharp_left"
  by (simp add: is_left_turn_def sharp_left_def dict_get_def)

lemma sharp_right_not: "\<not> is_left_turn sharp_right"
  by (simp add: is_left_turn_def sharp_right_def dict_get_def)

theorem risk_score_formula_witness:
  "\<exists>ra rb rc.
     get_safe_route (valhalla_reply (toy_leg 12 [sharp_right])) [0, 1] two_points = Inr ra
   \<and> get_safe_route (valhalla_reply (toy_leg 15 [sharp_right])) [0, 1] two_points = Inr rb
   \<and> get_safe_route (valhalla_reply (toy_leg 12 [sharp_left, sharp_right])) [0, 1] two_points = Inr rc
   \<and> maneuvers ra = maneuvers rb \<and> distance ra \<le> distance rb \<and> risk_score ra \<le> risk_score rb
   \<and> distance ra = distance rc \<and> maneuvers ra = [] @ [sharp_right]
   \<and> maneuvers rc = [] @ sharp_left # [sharp_right] \<and> is_left_turn sharp_left
   \<and> risk_score rc = risk_score ra + 5
   \<and> risk_score ra = 12 \<and> risk_score rb = 15 \<and> risk_score rc = 17"
proof -
  define ra where "ra = projr (get_safe_route (valhalla_reply (toy_leg 12 [sharp_right])) [0, 1] two_points)"
  define rb where "rb = projr (get_safe_route (valhalla_reply (toy_leg 15 [sharp_right])) [0, 1] two_points)"
  define rc where "rc = projr (get_safe_route (valhalla_reply (toy_leg 12 [sharp_left, sharp_right])) [0, 1] two_points)"
  have a: "get_safe_route (valhalla_reply (toy_leg 12 [sharp_right])) [0, 1] two_points = Inr ra"
    and b: "get_safe_route (valhalla_reply (toy_leg 15 [sharp_right])) [0, 1] two_points = Inr rb"
    and c: "get_safe_route (valhalla_reply (toy_leg 12 [sharp_left, sharp_right])) [0, 1] two_points = Inr rc"
    by (simp_all add: ra_def rb_def rc_def toy_route)
  have flds: "maneuvers ra = maneuvers rb" "distance ra \<le> distance rb" "distance ra = distance rc"
    "maneuvers ra = [] @ [sharp_right]" "maneuvers rc = [] @ sharp_left # [sharp_right]"
    by (simp_all add: ra_def rb_def rc_def toy_route)
  have vals: "risk_score ra = 12" "risk_score rb = 15"
    by (simp_all add: ra_def rb_def toy_route left_turns_count sharp_right_not)
  from risk_score_formula [of "valhalla_reply (toy_leg 12 [sharp_right])" "[0, 1]" two_points ra
      "valhalla_reply (toy_leg 12 [sharp_right])" "[0, 1]" two_points ra
      "valhalla_reply (toy_leg 15 [sharp_right])" "[0, 1]" two_points rb "[]" "[]" sharp_right]
    a b flds
  have le: "risk_score ra \<le> risk_score rb"
    by blast
  from risk_score_formula [of "valhalla_reply (toy_leg 12 [sharp_right])" "[0, 1]" two_points ra
      "valhalla_reply (toy_leg 12 [sharp_right])" "[0, 1]" two_points ra
      "valhalla_reply (toy_leg 12 [sharp_left, sharp_right])" "[0, 1]" two_points rc
      "[]" "[sharp_right]" sharp_left]
    a c flds sharp_left_counts
  have plus: "risk_score rc = risk_score ra + 5"
    by simp
  from a b c flds vals le plus sharp_left_counts show ?thesis
    by (intro exI [of _ ra] exI [of _ rb] exI [of _ rc]) simp
qed

text \<open>
  C9. A maneuver counts as a left turn exactly when its \<^verbatim>\<open>turn_degree\<close> (0 when the
  key is absent) is greater than 90 and \<^verbatim>\<open>left\<close> occurs somewhere in its
  \<^verbatim>\<open>verbal_turn_alert\<close> (empty when the key is absent); these are the maneuvers that
  \<^verbatim>\<open>get_safe_route\<close> counts. A maneuver without one of the two keys never counts, and
  whatever keys the maneuvers have, a response with a leg yields a route.
\<close>

theorem left_turn_condition:
  "(is_left_turn m \<longleftrightarrow>
      90 < (case turn_degree m of None \<Rightarrow> 0 | Some d \<Rightarrow> d)
      \<and> (\<exists>p q. (case verbal_turn_alert m of None \<Rightarrow> [] | Some s \<Rightarrow> s) = p @ ''left'' @ q))
   \<and> left_turns ms
       = length (filter (\<lambda>m. 90 < (case turn_degree m of None \<Rightarrow> 0 | Some d \<Rightarrow> d)
                   \<and> (\<exists>p q. (case verbal_turn_alert m of None \<Rightarrow> [] | Some s \<Rightarrow> s) = p @ ''left'' @ q)) ms)
   \<and> (turn_degree m = None \<or> verbal_turn_alert m = None \<longrightarrow> \<not> is_left_turn m)
   \<and> (locations_of points order = Inr locs \<and> post locs = Response (l # ls)
      \<longrightarrow> (\<exists>r. get_safe_route post order points = Inr r
             \<and> risk_score r = distance r + real (left_turns (leg_maneuvers l) * 5)))"
proof -
  have iff: "is_left_turn m \<longleftrightarrow>
      90 < (case turn_degree m of None \<Rightarrow> 0 | Some d \<Rightarrow> d)
      \<and> (\<exists>p q. (case verbal_turn_alert m of None \<Rightarrow> [] | Some s \<Rightarrow> s) = p @ ''left'' @ q)" for m
    by (simp add: is_left_turn_def dict_get_def str_contains_iff)
  have count: "left_turns ms
       = length (filter (\<lambda>m. 90 < (case turn_degree m of None \<Rightarrow> 0 | Some d \<Rightarrow> d)
                   \<and> (\<exists>p q. (case verbal_turn_alert m of None \<Rightarrow> [] | Some s \<Rightarrow> s) = p @ ''left'' @ q)) ms)"
  proof -
    have "is_left_turn = (\<lambda>m. 90 < (case turn_degree m of None \<Rightarrow> 0 | Some d \<Rightarrow> d)
                   \<and> (\<exists>p q. (case verbal_turn_alert m of None \<Rightarrow> [] | Some s \<Rightarrow> s) = p @ ''left'' @ q))"
      by (rule ext) (rule iff)
    then show ?thesis
      by (simp only: left_turns_count)
  qed
  have missing: "turn_degree m = None \<or> verbal_turn_alert m = None \<longrightarrow> \<not> is_left_turn m"
    by (auto simp: iff)
  have total: "locations_of points order = Inr locs \<and> post locs = Response (l # ls)
      \<longrightarrow> (\<exists>r. get_safe_route post order points = Inr r
             \<and> risk_score r = distance r + real (left_turns (leg_maneuvers l) * 5))"
    by (auto simp: get_safe_route_Inr)
  from iff [of m] count missing total show ?thesis
    by blast
qed

theorem left_turn_condition_witness:
  "is_left_turn sharp_left \<and> \<not> is_left_turn sharp_right \<and> \<not> is_left_turn slight_left
   \<and> verbal_turn_alert no_alert = None \<and> \<not> is_left_turn no_alert
   \<and> turn_degree no_degree = None \<and> \<not> is_left_turn no_degree
   \<and> left_turns [sharp_left, sharp_right, slight_left, no_alert, no_degree, sharp_left] = 2
   \<and> locations_of two_points [0, 1] = Inr two_points
   \<and> valhalla_reply (toy_leg 12 [no_alert, no_degree, sharp_left]) two_points
       = Response (toy_leg 12 [no_alert, no_degree, sharp_left] # [])
   \<and> (\<exists>r. get_safe_route (valhalla_reply (toy_leg 12 [no_alert, no_degree, sharp_left])) [0, 1] two_points
            = Inr r \<and> risk_score r = 17)"
proof -
  have slight: "\<not> is_left_turn slight_left"
    by (simp add: is_left_turn_def slight_left_def dict_get_def)
  have na: "verbal_turn_alert no_alert = None" and nd: "turn_degree no_degree = None"
    by (simp_all add: no_alert_def no_degree_def)
  from left_turn_condition [of no_alert] na have na': "\<not> is_left_turn no_alert"
    by blast
  from left_turn_condition [of no_degree] nd have nd': "\<not> is_left_turn no_degree"
    by blast
  have count: "left_turns [sharp_left, sharp_right, slight_left, no_alert, no_degree, sharp_left] = 2"
    by (simp add: left_turns_count sharp_left_counts sharp_right_not slight na' nd')
  have locs: "locations_of two_points [0, 1] = Inr two_points"
    by (simp add: two_points_def index_at_def)
  have reply: "valhalla_reply (toy_leg 12 [no_alert, no_degree, sharp_left]) two_points
       = Response (toy_leg 12 [no_alert, no_degree, sharp_left] # [])"
    by (simp add: valhalla_reply_def)
  have "\<exists>r. get_safe_route (valhalla_reply (toy_leg 12 [no_alert, no_degree, sharp_left])) [0, 1] two_points
            = Inr r \<and> risk_score r = 17"
    by (simp add: toy_route left_turns_count sharp_left_counts na' nd')
  with sharp_left_counts sharp_right_not slight na na' nd nd' count locs reply show ?thesis
    by blast
qed

section \<open>Properties of the route selector\<close>

lemma rank_routes_take: "rank_routes routes = take 3 (sort_key risk_score routes)"
  by (simp add: rank_routes_def slice_to_def)


lemma evaluate_orders_mem:
  "evaluate_orders ev orders = Inr routes \<Longrightarrow> r \<in> set routes \<Longrightarrow> \<exists>order\<in>set orders. ev order = Inr r"
  by (induction orders arbitrary: routes) (auto split: sum.splits if_splits)



lemma analyze_routes_selects:
  "analyze_routes graph_from_bbox solve post origin destination stops = Inr routes \<Longrightarrow>
   \<exists>orders. select_routes (\<lambda>order. get_safe_route post order ([origin] @ stops @ [destination])) orders
              = Inr routes"
  by (auto simp: analyze_routes_def Let_def split: sum.splits)



lemma six_point_candidates:
  "candidate_orders [0, 1, 2, 3, 4, 5] 4 5
     = Inr [[0, 1, 2, 3, 4, 5], [0, 2, 1, 3, 4, 5], [0, 1, 3, 2, 4, 5], [0, 1, 2, 4, 3, 5]]"
  by code_simp









lemma street_graph: "get_osm_graph osm_street [(0, 0), (1, 0)] = Inr one_way_street"
  by (simp add: get_osm_graph_def osm_street_def)

lemma street_matrix_two:
  "compute_distance_matrix one_way_street [(0, 0), (1, 0)] = Inr [[Fin 0, Fin 1], [PosInf, Fin 0]]"
  by (simp add: compute_distance_matrix_def one_way_street_def matrix_entry_def
        enumerate_eq_zip upt_conv_Cons)

lemma street_orders:
  "get_top_stop_orders cbc_infeasible [[Fin 0, Fin 1], [PosInf, Fin 0]] 5 = Inr [[0, 1]]"
  by (simp add: get_top_stop_orders_two cbc_infeasible_def slice_to_def)

lemma set_rank_routes: "set (rank_routes routes) \<subseteq> set routes"
proof -
  have "set (take 3 (sort_key risk_score routes)) \<subseteq> set (sort_key risk_score routes)"
    by (rule set_take_subset)
  then show ?thesis
    by (simp add: rank_routes_def slice_to_def)
qed

lemma select_routes_mem:
  assumes "select_routes ev orders = Inr routes" "r \<in> set routes"
  shows "\<exists>order\<in>set orders. ev order = Inr r"
proof -
  from assms(1) obtain all where eval: "evaluate_orders ev orders = Inr all"
    and routes: "routes = rank_routes all"
    by (auto simp: select_routes_def split: sum.splits)
  from assms(2) routes set_rank_routes [of all] have "r \<in> set all"
    by auto
  with eval show ?thesis
    by (rule evaluate_orders_mem)
qed

lemma route_of_leg:
  assumes "get_safe_route post order points = Inr r"
  shows "\<exists>locs l ls. locations_of points order = Inr locs \<and> post locs = Response (l # ls)
           \<and> time r = summary_time (summary l) / 60
           \<and> distance r = summary_length (summary l)
           \<and> polyline r = shape l
           \<and> maneuvers r = leg_maneuvers l"
proof -
  from assms obtain locs l ls where "locations_of points order = Inr locs" "post locs = Response (l # ls)"
    "r = \<lparr> polyline = shape l, distance = summary_length (summary l),
           time = summary_time (summary l) / 60,
           risk_score = summary_length (summary l) + real (left_turns (leg_maneuvers l) * 5),
           maneuvers = leg_maneuvers l \<rparr>"
    unfolding get_safe_route_Inr by blast
  then show ?thesis
    by (intro exI [of _ locs] exI [of _ l] exI [of _ ls]) simp
qed

text \<open>
  C10. Every route returned by \<^verbatim>\<open>get_safe_route\<close>, and so every route returned by
  \<^verbatim>\<open>analyze_routes\<close>, comes from the first leg of a service response: its time is the
  leg's summary time divided by 60, and its distance, polyline and maneuver list are the
  leg's summary length, shape and maneuvers, unchanged.
\<close>

theorem route_fields_pass_through:
  "(get_safe_route post order points = Inr r
      \<longrightarrow> (\<exists>locs l ls. locations_of points order = Inr locs \<and> post locs = Response (l # ls)
             \<and> time r = summary_time (summary l) / 60
             \<and> distance r = summary_length (summary l)
             \<and> polyline r = shape l
             \<and> maneuvers r = leg_maneuvers l))
   \<and> (analyze_routes graph_from_bbox solve post' origin destination stops = Inr routes
        \<and> r' \<in> set routes
      \<longrightarrow> (\<exists>order locs l ls.
               locations_of ([origin] @ stops @ [destination]) order = Inr locs
             \<and> post' locs = Response (l # ls)
             \<and> time r' = summary_time (summary l) / 60
             \<and> distance r' = summary_length (summary l)
             \<and> polyline r' = shape l
             \<and> maneuvers r' = leg_maneuvers l))"
proof (intro conjI impI)
  assume "get_safe_route post order points = Inr r"
  then show "\<exists>locs l ls. locations_of points order = Inr locs \<and> post locs = Response (l # ls)
             \<and> time r = summary_time (summary l) / 60
             \<and> distance r = summary_length (summary l)
             \<and> polyline r = shape l
             \<and> maneuvers r = leg_maneuvers l"
    by (rule route_of_leg)
next
  assume a: "analyze_routes graph_from_bbox solve post' origin destination stops = Inr routes
        \<and> r' \<in> set routes"
  then obtain orders
    where "select_routes (\<lambda>order. get_safe_route post' order ([origin] @ stops @ [destination])) orders
             = Inr routes"
    using analyze_routes_selects by blast
  with a obtain order where "get_safe_route post' order ([origin] @ stops @ [destination]) = Inr r'"
    using select_routes_mem [of "\<lambda>order. get_safe_route post' order ([origin] @ stops @ [destination])" orders routes r']
    by blast
  from route_of_leg [OF this]
  show "\<exists>order locs l ls.
               locations_of ([origin] @ stops @ [destination]) order = Inr locs
             \<and> post' locs = Response (l # ls)
             \<and> time r' = summary_time (summary l) / 60
             \<and> distance r' = summary_length (summary l)
             \<and> polyline r' = shape l
             \<and> maneuvers r' = leg_maneuvers l"
    by blast
qed

lemma street_analysis:
  "analyze_routes osm_street cbc_infeasible (valhalla_reply (toy_leg 12 [sharp_left])) (0, 0) (1, 0) []
     = Inr [\<lparr> polyline = ''_p~iF~ps|U'', distance = 12, time = 3 / 2, risk_score = 17,
              maneuvers = [sharp_left] \<rparr>]"
proof -
  have "get_safe_route (valhalla_reply (toy_leg 12 [sharp_left])) [0, 1] [(0, 0), (1, 0)]
          = Inr \<lparr> polyline = ''_p~iF~ps|U'', distance = 12, time = 3 / 2, risk_score = 17,
                  maneuvers = [sharp_left] \<rparr>"
    using toy_route [of 12 "[sharp_left]"]
    by (simp add: two_points_def left_turns_count sharp_left_counts)
  then show ?thesis
    by (simp add: analyze_routes_def street_graph street_matrix_two street_orders select_routes_def
          rank_routes_take)
qed

theorem route_fields_pass_through_witness:
  "\<exists>r. get_safe_route (valhalla_reply (toy_leg 12 [sharp_left])) [0, 1] two_points = Inr r
      \<and> analyze_routes osm_street cbc_infeasible (valhalla_reply (toy_leg 12 [sharp_left])) (0, 0) (1, 0) []
          = Inr [r]
      \<and> summary_time (summary (toy_leg 12 [sharp_left])) = 90 \<and> time r = 90 / 60
      \<and> distance r = summary_length (summary (toy_leg 12 [sharp_left]))
      \<and> polyline r = shape (toy_leg 12 [sharp_left])
      \<and> maneuvers r = leg_maneuvers (toy_leg 12 [sharp_left])"
proof -
  define r where "r = \<lparr> polyline = ''_p~iF~ps|U'', distance = 12, time = 3 / 2, risk_score = 17,
                         maneuvers = [sharp_left] \<rparr>"
  have route: "get_safe_route (valhalla_reply (toy_leg 12 [sharp_left])) [0, 1] two_points = Inr r"
    by (simp add: toy_route r_def left_turns_count sharp_left_counts)
  have all: "analyze_routes osm_street cbc_infeasible (valhalla_reply (toy_leg 12 [sharp_left])) (0, 0) (1, 0) []
          = Inr [r]"
    by (simp add: street_analysis r_def)
  from route_fields_pass_through [of "valhalla_reply (toy_leg 12 [sharp_left])" "[0, 1]" two_points r
      osm_street cbc_infeasible "valhalla_reply (toy_leg 12 [sharp_left])" "(0, 0)" "(1, 0)" "[]" "[r]" r]
    route all
  have "time r = 90 / 60 \<and> distance r = summary_length (summary (toy_leg 12 [sharp_left]))
      \<and> polyline r = shape (toy_leg 12 [sharp_left])
      \<and> maneuvers r = leg_maneuvers (toy_leg 12 [sharp_left])"
    by (auto simp: valhalla_reply_def toy_leg_def)
  with route all show ?thesis
    by (intro exI [of _ r]) (simp add: toy_leg_def)
qed

text \<open>
  Only the \<^verbatim>\<open>RuntimeError\<close> of a failed request is caught: a response without a leg
  makes \<^verbatim>\<open>legs[0]\<close> raise \<^verbatim>\<open>IndexError\<close>, which leaves \<^verbatim>\<open>analyze_routes\<close>.
\<close>

lemma response_without_leg_propagates:
  "analyze_routes osm_street cbc_infeasible valhalla_no_leg (0, 0) (1, 0) [] = Inl IndexError"
proof -
  have "get_safe_route valhalla_no_leg [0, 1] [(0, 0), (1, 0)] = Inl IndexError"
    by (simp add: get_safe_route_def index_at_def valhalla_no_leg_def)
  then show ?thesis
    by (simp add: analyze_routes_def street_graph street_matrix_two street_orders select_routes_def)
qed

end
